theory Spec2Isabelle
  imports Main "HOL-Library.Sublist"
begin

section \<open>Crop Matcher: the page component of src/app/page.tsx\<close>

text \<open>
  The page is one React component. Its state hooks are the fields of one record, every
  event handler is a function from the state at the time of the event to the state after
  it, and the JSX conditions that decide which elements exist are predicates on the state.
  A handler's setter calls are batched by React and applied together before the next
  event is handled, so a handler reads only the state it was rendered with.
\<close>

subsection \<open>Strings\<close>

text \<open>
  A string is a list of characters, each one code unit in the Latin-1 range (0 to 255),
  where JavaScript's \<open>toLowerCase\<close> and \<open>trim\<close> work unit by unit.
\<close>

definition isWhiteSpace :: "char \<Rightarrow> bool" where
  \<comment> \<open>WhiteSpace and LineTerminator of ECMAScript below 256: TAB, LF, VT, FF, CR, SP, NBSP\<close>
  "isWhiteSpace c = ((of_char c :: nat) \<in> {9, 10, 11, 12, 13, 32, 160})"

definition trim :: "string \<Rightarrow> string" where
  "trim s = rev (dropWhile isWhiteSpace (rev (dropWhile isWhiteSpace s)))"

definition lowerChar :: "char \<Rightarrow> char" where
  "lowerChar c =
     (let n = (of_char c :: nat)
      in if (65 \<le> n \<and> n \<le> 90) \<or> (192 \<le> n \<and> n \<le> 222 \<and> n \<noteq> 215)
         then char_of (n + 32) else c)"

definition toLowerCase :: "string \<Rightarrow> string" where
  "toLowerCase s = map lowerChar s"

fun includesStr :: "string \<Rightarrow> string \<Rightarrow> bool" where
  \<comment> \<open>\<open>s.includes(t)\<close>: \<open>t\<close> occurs in \<open>s\<close> as a contiguous run\<close>
  "includesStr [] t = (t = [])"
| "includesStr (c # s) t = (prefix t (c # s) \<or> includesStr s t)"

subsection \<open>Data\<close>

record Product =
  cropId :: string
  title :: string
  price :: string
  imageUrl :: string
  buyLink :: string

record Result =
  crop :: string
  matchedProduct :: Product

record State =
  input :: string
  suggestions :: "Product list"
  showSuggestions :: bool
  result :: "Result option"
  error :: string
  loading :: bool
  products :: "Product list"
  selectedSuggestionIndex :: int

definition initial :: State where
  \<comment> \<open>the \<open>useState\<close> initial values, lines 14 to 21\<close>
  "initial = \<lparr>input = [], suggestions = [], showSuggestions = False, result = None,
     error = [], loading = False, products = [], selectedSuggestionIndex = - 1\<rparr>"

datatype Key = ArrowDown | ArrowUp | Enter | Escape | OtherKey

subsection \<open>Rendering conditions\<close>

definition dropdownRendered :: "State \<Rightarrow> bool" where
  \<comment> \<open>line 196: \<open>showSuggestions && suggestions.length > 0 && (...)\<close>\<close>
  "dropdownRendered s = (showSuggestions s \<and> int (length (suggestions s)) > 0)"

definition searchButtonDisabled :: "State \<Rightarrow> bool" where
  \<comment> \<open>line 240: \<open>disabled={loading || !input.trim()}\<close>\<close>
  "searchButtonDisabled s = (loading s \<or> trim (input s) = [])"

definition errorShown :: "State \<Rightarrow> bool" where
  \<comment> \<open>line 258: \<open>error && (...)\<close>, a string is truthy when it is not empty\<close>
  "errorShown s = (error s \<noteq> [])"

definition resultShown :: "State \<Rightarrow> bool" where
  \<comment> \<open>line 274: \<open>result && (...)\<close>\<close>
  "resultShown s = (result s \<noteq> None)"

subsection \<open>Values at run time\<close>

text \<open>
  The type \<open>Product[]\<close> of the catalog is erased at run time: line 31 stores whatever
  the fetched JSON holds. The calls of the lookup are therefore given on JSON values,
  where a property read or a method call on the wrong kind of value throws a
  \<open>TypeError\<close>. A \<open>Product\<close> is, at run time, the object \<open>toJS\<close> builds from it.
\<close>

datatype jsError = TypeError

datatype jsValue =
    JUndefined
  | JNull
  | JBool bool
  | JNumber int
  | JString string
  | JArray "jsValue list"
  | JObject "(string \<times> jsValue) list"

text \<open>An object is the list of its properties, each name once.\<close>

definition getProp :: "string \<Rightarrow> jsValue \<Rightarrow> jsError + jsValue" where
  \<comment> \<open>\<open>v.name\<close> for a field name of \<open>Product\<close>: reading from \<open>undefined\<close> or \<open>null\<close> throws,
      an object gives the property or \<open>undefined\<close>, any other value gives \<open>undefined\<close>\<close>
  "getProp name v =
     (case v of
        JUndefined \<Rightarrow> Inl TypeError
      | JNull \<Rightarrow> Inl TypeError
      | JObject props \<Rightarrow>
          Inr (case map_of props name of Some x \<Rightarrow> x | None \<Rightarrow> JUndefined)
      | _ \<Rightarrow> Inr JUndefined)"

definition callToLowerCase :: "jsValue \<Rightarrow> jsError + string" where
  \<comment> \<open>\<open>v.toLowerCase()\<close>: only a string has the method\<close>
  "callToLowerCase v = (case v of JString str \<Rightarrow> Inr (toLowerCase str) | _ \<Rightarrow> Inl TypeError)"

definition truthy :: "jsValue \<Rightarrow> bool" where
  "truthy v =
     (case v of
        JUndefined \<Rightarrow> False
      | JNull \<Rightarrow> False
      | JBool b \<Rightarrow> b
      | JNumber n \<Rightarrow> n \<noteq> 0
      | JString str \<Rightarrow> str \<noteq> []
      | _ \<Rightarrow> True)"

fun jsFind :: "('a \<Rightarrow> jsError + bool) \<Rightarrow> 'a list \<Rightarrow> jsError + 'a option" where
  \<comment> \<open>\<open>Array.prototype.find\<close> with a callback that may throw: the first element on which
      the callback holds, \<open>undefined\<close> (\<open>None\<close>) when there is none, and the callback's
      exception as soon as it throws\<close>
  "jsFind f [] = Inr None"
| "jsFind f (x # xs) =
     (case f x of
        Inl err \<Rightarrow> Inl err
      | Inr True \<Rightarrow> Inr (Some x)
      | Inr False \<Rightarrow> jsFind f xs)"

definition cropIdIncludes :: "string \<Rightarrow> jsValue \<Rightarrow> jsError + bool" where
  \<comment> \<open>line 145, the callback of \<open>find\<close>:
      \<open>product.cropId.toLowerCase().includes(input.trim().toLowerCase())\<close>\<close>
  "cropIdIncludes inp product =
     (case getProp ''cropId'' product of
        Inl err \<Rightarrow> Inl err
      | Inr c \<Rightarrow>
          (case callToLowerCase c of
             Inl err \<Rightarrow> Inl err
           | Inr lowered \<Rightarrow> Inr (includesStr lowered (toLowerCase (trim inp)))))"

definition toJS :: "Product \<Rightarrow> jsValue" where
  "toJS product =
     JObject [(''cropId'', JString (cropId product)), (''title'', JString (title product)),
       (''price'', JString (price product)), (''image'', JString (imageUrl product)),
       (''buyLink'', JString (buyLink product))]"

subsection \<open>Handlers\<close>

definition suggestionsEffect :: "State \<Rightarrow> State" where
  \<comment> \<open>lines 58 to 61: the effect that runs after a render in which \<open>suggestions\<close> is a new array\<close>
  "suggestionsEffect s = s\<lparr>selectedSuggestionIndex := - 1\<rparr>"

definition handleInputChange :: "string \<Rightarrow> State \<Rightarrow> State" where
  "handleInputChange val s =
     (let s1 = s\<lparr>input := val\<rparr>;
          s2 = (if trim val \<noteq> []
                then (let filtered = filter (\<lambda>product.
                            includesStr (toLowerCase (cropId product)) (toLowerCase val) \<or>
                            includesStr (toLowerCase (title product)) (toLowerCase val))
                          (products s)
                      in s1\<lparr>suggestions := take 5 filtered, showSuggestions := True\<rparr>)
                else s1\<lparr>suggestions := [], showSuggestions := False\<rparr>)
      in s2\<lparr>selectedSuggestionIndex := - 1\<rparr>)"

definition selectSuggestion :: "Product \<Rightarrow> State \<Rightarrow> State" where
  "selectSuggestion product s =
     s\<lparr>input := cropId product, showSuggestions := False,
       result := Some \<lparr>crop = cropId product, matchedProduct = product\<rparr>\<rparr>"

definition findBest :: "Product list \<Rightarrow> string \<Rightarrow> Product option" where
  \<comment> \<open>lines 144 to 146: \<open>products.find(...)\<close>, \<open>undefined\<close> is \<open>None\<close>\<close>
  "findBest ps inp =
     find (\<lambda>product. includesStr (toLowerCase (cropId product)) (toLowerCase (trim inp))) ps"

definition searchStart :: "State \<Rightarrow> State" where
  \<comment> \<open>lines 139 to 141\<close>
  "searchStart s = s\<lparr>loading := True, error := [], result := None\<rparr>"

definition searchTry :: "State \<Rightarrow> State \<Rightarrow> jsError + State" where
  \<comment> \<open>lines 144 to 155, the body of \<open>try\<close>: \<open>s\<close> is the state the handler was rendered
      with, \<open>s1\<close> the state being built; the callback runs on each product as it is at
      run time, and an exception of the callback leaves the body\<close>
  "searchTry s s1 =
     (case jsFind (\<lambda>product. cropIdIncludes (input s) (toJS product)) (products s) of
        Inl err \<Rightarrow> Inl err
      | Inr (Some matched) \<Rightarrow>
          Inr (s1\<lparr>result := Some \<lparr>crop = trim (input s), matchedProduct = matched\<rparr>\<rparr>)
      | Inr None \<Rightarrow> Inr (s1\<lparr>error := ''No matching product found.''\<rparr>))"

definition handleSearch :: "State \<Rightarrow> State" where
  "handleSearch s =
     (if trim (input s) = [] then s
      else (let s1 = searchStart s;
                s2 = (case searchTry s s1 of
                        Inr s' \<Rightarrow> s'
                      | Inl err \<Rightarrow> s1\<lparr>error := ''Failed to fetch products.''\<rparr>)
            in s2\<lparr>loading := False\<rparr>))"

record SearchHooks =
  \<comment> \<open>the hooks that \<open>handleSearch\<close> reads and writes, with the catalog and the matched
      product as the values they are at run time\<close>
  inputJS :: string
  productsJS :: jsValue
  resultJS :: "(string \<times> jsValue) option"
  errorJS :: string
  loadingJS :: bool

definition handleSearchJS :: "SearchHooks \<Rightarrow> SearchHooks" where
  \<comment> \<open>lines 136 to 162 on an unchecked catalog: \<open>products.find\<close> throws when \<open>products\<close> is
      no array, and \<open>if (matched)\<close> tests the value found\<close>
  "handleSearchJS h =
     (if trim (inputJS h) = [] then h
      else (let h1 = h\<lparr>loadingJS := True, errorJS := [], resultJS := None\<rparr>;
                h2 = (case (case productsJS h of
                              JArray xs \<Rightarrow> jsFind (cropIdIncludes (inputJS h)) xs
                            | _ \<Rightarrow> Inl TypeError) of
                        Inr found \<Rightarrow>
                          (let matched = (case found of Some v \<Rightarrow> v | None \<Rightarrow> JUndefined)
                           in if truthy matched
                              then h1\<lparr>resultJS := Some (trim (inputJS h), matched)\<rparr>
                              else h1\<lparr>errorJS := ''No matching product found.''\<rparr>)
                      | Inl err \<Rightarrow> h1\<lparr>errorJS := ''Failed to fetch products.''\<rparr>)
            in h2\<lparr>loadingJS := False\<rparr>))"

definition hooksOf :: "State \<Rightarrow> SearchHooks" where
  \<comment> \<open>the run-time hooks of a state whose catalog is a \<open>Product[]\<close>\<close>
  "hooksOf s =
     \<lparr>inputJS = input s, productsJS = JArray (map toJS (products s)),
      resultJS = map_option (\<lambda>r. (crop r, toJS (matchedProduct r))) (result s),
      errorJS = error s, loadingJS = loading s\<rparr>"

definition handleKeyDown :: "Key \<Rightarrow> State \<Rightarrow> State" where
  "handleKeyDown key s =
     (if \<not> showSuggestions s then
        (if key = Enter then handleSearch s
         else if key = ArrowDown \<and> int (length (suggestions s)) > 0
              then s\<lparr>showSuggestions := True\<rparr>
         else s)
      else
        (case key of
           ArrowDown \<Rightarrow>
             s\<lparr>selectedSuggestionIndex :=
                 (let prev = selectedSuggestionIndex s
                  in if prev < int (length (suggestions s)) - 1 then prev + 1 else prev)\<rparr>
         | ArrowUp \<Rightarrow>
             s\<lparr>selectedSuggestionIndex :=
                 (let prev = selectedSuggestionIndex s
                  in if prev > 0 then prev - 1 else prev)\<rparr>
         | Enter \<Rightarrow>
             (if selectedSuggestionIndex s \<ge> 0 \<and>
                 selectedSuggestionIndex s < int (length (suggestions s))
              then selectSuggestion (suggestions s ! nat (selectedSuggestionIndex s)) s
              else handleSearch s)
         | Escape \<Rightarrow> s\<lparr>showSuggestions := False, selectedSuggestionIndex := - 1\<rparr>
         | OtherKey \<Rightarrow> s))"

definition handleClickOutside :: "State \<Rightarrow> State" where
  \<comment> \<open>lines 43 to 49, for a target outside the input and the dropdown:
      \<open>suggestionRef.current\<close> is set only while the dropdown is rendered\<close>
  "handleClickOutside s =
     (if dropdownRendered s
      then s\<lparr>showSuggestions := False, selectedSuggestionIndex := - 1\<rparr>
      else s)"

definition handleFocus :: "State \<Rightarrow> State" where
  \<comment> \<open>line 184\<close>
  "handleFocus s =
     (if trim (input s) \<noteq> [] \<and> int (length (suggestions s)) > 0
      then s\<lparr>showSuggestions := True\<rparr> else s)"

subsection \<open>Events\<close>

datatype Event =
    Loaded "Product list"
  | Change string
  | Focus
  | KeyDown Key
  | ClickSuggestion Product
  | MouseEnter nat
  | ClickSearch
  | ClickOutside

definition step :: "Event \<Rightarrow> State \<Rightarrow> State" where
  \<comment> \<open>A row of the dropdown carries its product and its index (lines 201 to 208): a
      click calls \<open>selectSuggestion(product)\<close> and a hover
      \<open>setSelectedSuggestionIndex(index)\<close>, with no check against the current list. The
      button delivers no click while it is disabled (line 240). A text change stores a
      new array in \<open>suggestions\<close>, so the effect of line 58 follows it.\<close>
  "step e s =
     (case e of
        Loaded data \<Rightarrow> s\<lparr>products := data\<rparr>
      | Change val \<Rightarrow> suggestionsEffect (handleInputChange val s)
      | Focus \<Rightarrow> handleFocus s
      | KeyDown key \<Rightarrow> handleKeyDown key s
      | ClickSuggestion product \<Rightarrow> selectSuggestion product s
      | MouseEnter index \<Rightarrow> s\<lparr>selectedSuggestionIndex := int index\<rparr>
      | ClickSearch \<Rightarrow> (if searchButtonDisabled s then s else handleSearch s)
      | ClickOutside \<Rightarrow> handleClickOutside s)"

definition fromCurrentRow :: "Event \<Rightarrow> State \<Rightarrow> bool" where
  \<comment> \<open>a row event comes from a row of the render of \<open>s\<close>: the dropdown is rendered
      (line 196) and the row is one of \<open>suggestions.map\<close> (line 201). React keeps exactly
      these rows when the row keys, the \<open>cropId\<close>s (line 203), are distinct; with a
      repeated key it can leave a row of an earlier render in the page.\<close>
  "fromCurrentRow e s =
     (case e of
        ClickSuggestion product \<Rightarrow> dropdownRendered s \<and> product \<in> set (suggestions s)
      | MouseEnter index \<Rightarrow> dropdownRendered s \<and> index < length (suggestions s)
      | _ \<Rightarrow> True)"

fun fromCurrentRows :: "State \<Rightarrow> Event list \<Rightarrow> bool" where
  \<comment> \<open>every row event of the list comes from a row of the render it happens in\<close>
  "fromCurrentRows s [] = True"
| "fromCurrentRows s (e # es) = (fromCurrentRow e s \<and> fromCurrentRows (step e s) es)"

definition run :: "Event list \<Rightarrow> State" where
  \<comment> \<open>the state after mounting (initial values, then the effect of line 58) and the events\<close>
  "run es = foldl (\<lambda>s e. step e s) (suggestionsEffect initial) es"

subsection \<open>The catalog of the specification's scenarios\<close>

definition corn :: Product where
  "corn = \<lparr>cropId = ''CORN01'', title = ''Sweet Corn'', price = ''$1'',
     imageUrl = ''corn.png'', buyLink = ''https://shop/corn''\<rparr>"

definition wheat :: Product where
  "wheat = \<lparr>cropId = ''WHEAT02'', title = ''Winter Wheat'', price = ''$2'',
     imageUrl = ''wheat.png'', buyLink = ''https://shop/wheat''\<rparr>"

definition catalog :: "Product list" where
  "catalog = [corn, wheat]"

definition babyCorn :: Product where
  \<comment> \<open>a second product whose \<open>cropId\<close> occurs inside the \<open>cropId\<close> of \<open>corn\<close>\<close>
  "babyCorn = \<lparr>cropId = ''CORN'', title = ''Baby Corn'', price = ''$3'',
     imageUrl = ''baby.png'', buyLink = ''https://shop/baby''\<rparr>"

definition brownRice :: Product where
  "brownRice = \<lparr>cropId = ''RICE03'', title = ''Brown Rice'', price = ''$4'',
     imageUrl = ''brown.png'', buyLink = ''https://shop/brown''\<rparr>"

definition redRice :: Product where
  \<comment> \<open>a product that repeats the \<open>cropId\<close> of \<open>brownRice\<close>\<close>
  "redRice = \<lparr>cropId = ''RICE03'', title = ''Red Rice'', price = ''$5'',
     imageUrl = ''red.png'', buyLink = ''https://shop/red''\<rparr>"

definition noCropId :: jsValue where
  \<comment> \<open>a fetched catalog whose only entry has no \<open>cropId\<close>\<close>
  "noCropId = JArray [JObject [(''title'', JString ''Sweet Corn'')]]"

section \<open>Auxiliary facts\<close>

lemma includesStr_iff: "includesStr s t \<longleftrightarrow> sublist t s"
  by (induction s) (auto simp: sublist_Cons_right)

lemma all_dropWhile: "(\<forall>x\<in>set (dropWhile P xs). P x) \<longleftrightarrow> (\<forall>x\<in>set xs. P x)"
  by (induction xs) auto

lemma trim_Nil_iff: "trim s = [] \<longleftrightarrow> (\<forall>c\<in>set s. isWhiteSpace c)"
  by (simp add: trim_def all_dropWhile)

lemma find_Some_split:
  "find P xs = Some x \<longleftrightarrow> (\<exists>pre post. xs = pre @ x # post \<and> P x \<and> (\<forall>y\<in>set pre. \<not> P y))"
proof (induction xs)
  case Nil
  then show ?case by simp
next
  case (Cons a xs)
  show ?case
  proof (cases "P a")
    case True
    have "(\<exists>pre post. a # xs = pre @ x # post \<and> P x \<and> (\<forall>y\<in>set pre. \<not> P y)) \<longleftrightarrow> a = x"
    proof
      assume "\<exists>pre post. a # xs = pre @ x # post \<and> P x \<and> (\<forall>y\<in>set pre. \<not> P y)"
      then obtain pre post where h: "a # xs = pre @ x # post" "\<forall>y\<in>set pre. \<not> P y"
        by blast
      show "a = x"
      proof (cases pre)
        case Nil
        with h show ?thesis by simp
      next
        case (Cons b pre')
        with h True show ?thesis by simp
      qed
    next
      assume "a = x"
      then have "a # xs = [] @ x # xs \<and> P x \<and> (\<forall>y\<in>set []. \<not> P y)"
        using True by simp
      then show "\<exists>pre post. a # xs = pre @ x # post \<and> P x \<and> (\<forall>y\<in>set pre. \<not> P y)"
        by blast
    qed
    with True show ?thesis by auto
  next
    case False
    have "(\<exists>pre post. a # xs = pre @ x # post \<and> P x \<and> (\<forall>y\<in>set pre. \<not> P y))
      \<longleftrightarrow> (\<exists>pre post. xs = pre @ x # post \<and> P x \<and> (\<forall>y\<in>set pre. \<not> P y))"
    proof
      assume "\<exists>pre post. a # xs = pre @ x # post \<and> P x \<and> (\<forall>y\<in>set pre. \<not> P y)"
      then obtain pre post
        where h: "a # xs = pre @ x # post" "P x" "\<forall>y\<in>set pre. \<not> P y"
        by blast
      show "\<exists>pre post. xs = pre @ x # post \<and> P x \<and> (\<forall>y\<in>set pre. \<not> P y)"
      proof (cases pre)
        case Nil
        with h False show ?thesis by simp
      next
        case (Cons b pre')
        with h have "xs = pre' @ x # post \<and> P x \<and> (\<forall>y\<in>set pre'. \<not> P y)" by simp
        then show ?thesis by blast
      qed
    next
      assume "\<exists>pre post. xs = pre @ x # post \<and> P x \<and> (\<forall>y\<in>set pre. \<not> P y)"
      then obtain pre post
        where h: "xs = pre @ x # post" "P x" "\<forall>y\<in>set pre. \<not> P y"
        by blast
      then have "a # xs = (a # pre) @ x # post \<and> P x \<and> (\<forall>y\<in>set (a # pre). \<not> P y)"
        using False by simp
      then show "\<exists>pre post. a # xs = pre @ x # post \<and> P x \<and> (\<forall>y\<in>set pre. \<not> P y)"
        by blast
    qed
    with False Cons show ?thesis by simp
  qed
qed

lemma handleInputChange_suggestions:
  "suggestions (handleInputChange q s) =
     (if trim q \<noteq> [] then take 5 (filter (\<lambda>p.
          sublist (toLowerCase q) (toLowerCase (cropId p)) \<or>
          sublist (toLowerCase q) (toLowerCase (title p))) (products s)) else [])"
  by (simp add: handleInputChange_def Let_def includesStr_iff)

lemma cropIdIncludes_toJS:
  "cropIdIncludes inp (toJS p) =
     Inr (includesStr (toLowerCase (cropId p)) (toLowerCase (trim inp)))"
  by (simp add: cropIdIncludes_def toJS_def getProp_def callToLowerCase_def)

lemma jsFind_total:
  "jsFind (\<lambda>x. Inr (P x)) xs = Inr (find P xs)"
  by (induction xs) simp_all

lemma jsFind_products:
  "jsFind (\<lambda>product. cropIdIncludes inp (toJS product)) ps = Inr (findBest ps inp)"
  by (simp add: cropIdIncludes_toJS jsFind_total findBest_def)

lemma jsFind_map:
  "jsFind f (map g xs) =
     (case jsFind (\<lambda>x. f (g x)) xs of Inl err \<Rightarrow> Inl err | Inr r \<Rightarrow> Inr (map_option g r))"
  by (induction xs) (simp_all split: sum.split bool.split)

lemma searchTry_products:
  "searchTry s s1 =
     (case findBest (products s) (input s) of
        Some matched \<Rightarrow>
          Inr (s1\<lparr>result := Some \<lparr>crop = trim (input s), matchedProduct = matched\<rparr>\<rparr>)
      | None \<Rightarrow> Inr (s1\<lparr>error := ''No matching product found.''\<rparr>))"
  by (simp add: searchTry_def jsFind_products split: option.split)

lemma handleSearch_frame:
  "input (handleSearch s) = input s \<and> suggestions (handleSearch s) = suggestions s \<and>
   showSuggestions (handleSearch s) = showSuggestions s \<and>
   products (handleSearch s) = products s \<and>
   selectedSuggestionIndex (handleSearch s) = selectedSuggestionIndex s"
  by (simp add: handleSearch_def searchTry_products searchStart_def Let_def
        split: option.split)

lemma handleSearch_error:
  "error (handleSearch s) = error s \<or> error (handleSearch s) = [] \<or>
   error (handleSearch s) = ''No matching product found.''"
  by (simp add: handleSearch_def searchTry_products searchStart_def Let_def
        split: option.split)

lemma truthy_toJS: "truthy (toJS p)"
  by (simp add: truthy_def toJS_def)

lemma handleSearchJS_hooksOf: "handleSearchJS (hooksOf s) = hooksOf (handleSearch s)"
proof (cases "findBest (products s) (input s)")
  case None
  then show ?thesis
    by (simp add: handleSearchJS_def hooksOf_def handleSearch_def searchTry_products
          searchStart_def jsFind_map jsFind_products truthy_def)
next
  case (Some m)
  then show ?thesis
    by (simp add: handleSearchJS_def hooksOf_def handleSearch_def searchTry_products
          searchStart_def jsFind_map jsFind_products truthy_toJS)
qed

lemma handleSearchJS_error:
  "errorJS (handleSearchJS h) = errorJS h \<or> errorJS (handleSearchJS h) = [] \<or>
   errorJS (handleSearchJS h) = ''No matching product found.'' \<or>
   errorJS (handleSearchJS h) = ''Failed to fetch products.''"
  by (simp add: handleSearchJS_def Let_def split: sum.split jsValue.split)

lemma run_snoc: "run (es @ [e]) = step e (run es)"
  by (simp add: run_def)

lemma step_index_bounds:
  assumes "- 1 \<le> selectedSuggestionIndex s"
    and "selectedSuggestionIndex s \<le> int (length (suggestions s)) - 1"
    and "fromCurrentRow e s"
  shows "- 1 \<le> selectedSuggestionIndex (step e s) \<and>
         selectedSuggestionIndex (step e s) \<le> int (length (suggestions (step e s))) - 1"
proof (cases e)
  case (KeyDown key)
  then show ?thesis using assms
    by (cases key)
       (auto simp add: step_def handleKeyDown_def handleSearch_frame selectSuggestion_def Let_def)
next
  case (Change val)
  then show ?thesis by (simp add: step_def suggestionsEffect_def)
qed (use assms in \<open>simp_all add: step_def handleFocus_def selectSuggestion_def
       handleSearch_frame handleClickOutside_def dropdownRendered_def fromCurrentRow_def\<close>)

lemma step_suggestions_changed:
  "suggestions (step e s) \<noteq> suggestions s \<Longrightarrow> selectedSuggestionIndex (step e s) = - 1"
proof (cases e)
  case (KeyDown key)
  assume "suggestions (step e s) \<noteq> suggestions s"
  with KeyDown show ?thesis
    by (cases key)
       (simp_all add: step_def handleKeyDown_def handleSearch_frame selectSuggestion_def
          split: if_splits)
next
  case (Change val)
  then show ?thesis by (simp add: step_def suggestionsEffect_def)
qed (simp_all add: step_def handleFocus_def selectSuggestion_def
       handleSearch_frame handleClickOutside_def split: if_splits)

lemma foldl_index_bounds:
  assumes "- 1 \<le> selectedSuggestionIndex s"
    and "selectedSuggestionIndex s \<le> int (length (suggestions s)) - 1"
    and "fromCurrentRows s es"
  shows "- 1 \<le> selectedSuggestionIndex (foldl (\<lambda>s e. step e s) s es) \<and>
         selectedSuggestionIndex (foldl (\<lambda>s e. step e s) s es)
           \<le> int (length (suggestions (foldl (\<lambda>s e. step e s) s es))) - 1"
  using assms
proof (induction es arbitrary: s)
  case Nil
  then show ?case by simp
next
  case (Cons e es)
  from Cons.prems have cur: "fromCurrentRow e s" and rest: "fromCurrentRows (step e s) es"
    by simp_all
  from step_index_bounds [OF Cons.prems(1) Cons.prems(2) cur]
  have "- 1 \<le> selectedSuggestionIndex (step e s)"
    and "selectedSuggestionIndex (step e s) \<le> int (length (suggestions (step e s))) - 1"
    by simp_all
  from Cons.IH [OF this rest] show ?case by simp
qed

lemma run_index_bounds:
  assumes "fromCurrentRows (suggestionsEffect initial) es"
  shows "- 1 \<le> selectedSuggestionIndex (run es) \<and>
   selectedSuggestionIndex (run es) \<le> int (length (suggestions (run es))) - 1"
  unfolding run_def
  by (rule foldl_index_bounds [OF _ _ assms]) (simp_all add: suggestionsEffect_def initial_def)

lemma step_error:
  assumes "error s = [] \<or> error s = ''No matching product found.''"
  shows "error (step e s) = [] \<or> error (step e s) = ''No matching product found.''"
proof (cases e)
  case (KeyDown key)
  then show ?thesis using assms handleSearch_error [of s]
    by (cases key)
       (auto simp add: step_def handleKeyDown_def selectSuggestion_def Let_def)
next
  case (Change val)
  then show ?thesis using assms
    by (simp add: step_def suggestionsEffect_def handleInputChange_def Let_def)
next
  case ClickSearch
  then show ?thesis using assms handleSearch_error [of s] by (auto simp add: step_def)
qed (use assms in \<open>simp_all add: step_def handleFocus_def selectSuggestion_def
       handleClickOutside_def\<close>)

lemma run_error: "error (run es) = [] \<or> error (run es) = ''No matching product found.''"
proof (induction es rule: rev_induct)
  case Nil
  show ?case by (simp add: run_def suggestionsEffect_def initial_def)
next
  case (snoc e es)
  then show ?case using step_error [of "run es" e] by (simp add: run_snoc)
qed

section \<open>The claims\<close>

subsection \<open>C1: the dropdown and the suggestions list\<close>

text \<open>
  C1, as stated, makes \<open>dropdownVisible\<close> false whenever \<open>suggestions\<close> is empty. The state
  flag \<open>showSuggestions\<close> does not obey this: a text change with a non-blank text sets it
  (line 74) whether or not a product matched. After typing \<open>xyz\<close> over the two-product
  catalog the flag is set and the list is empty.
\<close>

theorem showSuggestions_with_no_suggestions:
  "showSuggestions (run [Loaded catalog, Change ''xyz'']) \<and>
   suggestions (run [Loaded catalog, Change ''xyz'']) = []"
  by code_simp

text \<open>
  C1, amended: the dropdown element is rendered only while \<open>showSuggestions\<close> holds and
  \<open>suggestions\<close> is not empty (line 196), so it is never shown over an empty list. After a
  text change the flag \<open>showSuggestions\<close> is set exactly when the text is not blank (some
  character is not white space), the dropdown is rendered exactly when the text is not
  blank and the recomputed suggestions are not empty, a blank text leaves the list empty,
  and the highlighted index is -1.
\<close>

theorem dropdown_rendered_after_change:
  "(dropdownRendered s \<longrightarrow> suggestions s \<noteq> []) \<and>
   showSuggestions (step (Change v) s) = (\<exists>c\<in>set v. \<not> isWhiteSpace c) \<and>
   dropdownRendered (step (Change v) s) =
     ((\<exists>c\<in>set v. \<not> isWhiteSpace c) \<and> suggestions (step (Change v) s) \<noteq> []) \<and>
   ((\<forall>c\<in>set v. isWhiteSpace c) \<longrightarrow> suggestions (step (Change v) s) = []) \<and>
   selectedSuggestionIndex (step (Change v) s) = - 1"
  by (auto simp add: step_def suggestionsEffect_def handleInputChange_def Let_def
        dropdownRendered_def trim_Nil_iff)

theorem dropdown_rendered_after_change_witness:
  "dropdownRendered (step (Change ''corn'') (run [Loaded catalog])) \<and>
   suggestions (step (Change ''corn'') (run [Loaded catalog])) \<noteq> [] \<and>
   \<not> dropdownRendered (step (Change ''  '') (run [Loaded catalog]))"
proof -
  have a: "\<exists>c\<in>set ''corn''. \<not> isWhiteSpace c" by code_simp
  have b: "suggestions (step (Change ''corn'') (run [Loaded catalog])) \<noteq> []" by code_simp
  have c: "\<not> (\<exists>c\<in>set ''  ''. \<not> isWhiteSpace c)" by code_simp
  show ?thesis
    using a b c dropdown_rendered_after_change [of "run [Loaded catalog]" "''corn''"]
      dropdown_rendered_after_change [of "run [Loaded catalog]" "''  ''"]
    by blast
qed

subsection \<open>C2: the suggestions computed on a text change\<close>

text \<open>
  C2, as stated, has the suggestions be the first five matches for every query. For the
  empty query every product matches (the empty string occurs in every \<open>cropId\<close>), and the
  handler stores the empty list (line 76): \<open>corn\<close> is in the catalog and matches, and is
  not suggested.
\<close>

theorem blank_query_drops_matches:
  "suggestions (handleInputChange '''' (run [Loaded catalog])) = [] \<and>
   includesStr (toLowerCase (cropId corn)) (toLowerCase '''') \<and>
   corn \<in> set (products (run [Loaded catalog]))"
  by code_simp

text \<open>
  C2, amended: for every catalog and every query \<open>q\<close>, the suggestions stored by a text
  change are at most 5 products, each of whose \<open>cropId\<close> or \<open>title\<close>, lower-cased, contains
  the lower-cased \<open>q\<close>, in catalog order; when \<open>q\<close> is not blank they are exactly the first
  5 such products of the catalog, and when \<open>q\<close> is blank (empty or white space only) they
  are the empty list.
\<close>

theorem suggestions_on_change:
  "length (suggestions (handleInputChange q s)) \<le> 5 \<and>
   (\<forall>p\<in>set (suggestions (handleInputChange q s)).
      sublist (toLowerCase q) (toLowerCase (cropId p)) \<or>
      sublist (toLowerCase q) (toLowerCase (title p))) \<and>
   subseq (suggestions (handleInputChange q s)) (products s) \<and>
   ((\<exists>c\<in>set q. \<not> isWhiteSpace c) \<longrightarrow>
      suggestions (handleInputChange q s) =
        take 5 (filter (\<lambda>p. sublist (toLowerCase q) (toLowerCase (cropId p)) \<or>
                           sublist (toLowerCase q) (toLowerCase (title p))) (products s))) \<and>
   ((\<forall>c\<in>set q. isWhiteSpace c) \<longrightarrow> suggestions (handleInputChange q s) = [])"
proof -
  let ?m = "\<lambda>p. sublist (toLowerCase q) (toLowerCase (cropId p)) \<or>
                 sublist (toLowerCase q) (toLowerCase (title p))"
  let ?r = "take 5 (filter ?m (products s))"
  have "subseq ?r (filter ?m (products s))"
    by (rule prefix_imp_subseq [OF take_is_prefix])
  moreover have "subseq (filter ?m (products s)) (products s)"
    by (rule subseq_filter_left)
  ultimately have sub: "subseq ?r (products s)"
    by (rule subseq_order.order_trans)
  have "set ?r \<subseteq> set (filter ?m (products s))"
    by (rule set_take_subset)
  then have mem: "\<forall>p\<in>set ?r. ?m p"
    by auto
  have len: "length ?r \<le> 5" by simp
  show ?thesis
  proof (cases "trim q = []")
    case True
    then have "suggestions (handleInputChange q s) = []"
      by (simp add: handleInputChange_suggestions)
    with True show ?thesis by (simp add: trim_Nil_iff)
  next
    case False
    then have "suggestions (handleInputChange q s) = ?r"
      by (simp add: handleInputChange_suggestions)
    with False sub mem len show ?thesis unfolding trim_Nil_iff by metis
  qed
qed

theorem suggestions_on_change_witness:
  "suggestions (handleInputChange ''CoRn'' (run [Loaded catalog])) = [corn] \<and>
   suggestions (handleInputChange ''   '' (run [Loaded catalog])) = []"
proof -
  let ?s = "run [Loaded catalog]"
  have a: "\<exists>c\<in>set ''CoRn''. \<not> isWhiteSpace c" by code_simp
  have b: "\<forall>c\<in>set ''   ''. isWhiteSpace c" by code_simp
  have c: "take 5 (filter (\<lambda>p. includesStr (toLowerCase (cropId p)) (toLowerCase ''CoRn'') \<or>
              includesStr (toLowerCase (title p)) (toLowerCase ''CoRn'')) (products ?s)) = [corn]"
    by code_simp
  from a suggestions_on_change [of "''CoRn''" ?s]
  have "suggestions (handleInputChange ''CoRn'' ?s) =
     take 5 (filter (\<lambda>p. sublist (toLowerCase ''CoRn'') (toLowerCase (cropId p)) \<or>
               sublist (toLowerCase ''CoRn'') (toLowerCase (title p))) (products ?s))"
    by blast
  from this c [unfolded includesStr_iff]
  have "suggestions (handleInputChange ''CoRn'' ?s) = [corn]"
    by (rule trans)
  moreover from b suggestions_on_change [of "''   ''" ?s]
  have "suggestions (handleInputChange ''   '' ?s) = []"
    by blast
  ultimately show ?thesis by (rule conjI)
qed

subsection \<open>C3: the lookup of the search action\<close>

text \<open>
  C3: for every catalog and every query \<open>q\<close>, \<open>findBest\<close> returns the first catalog entry,
  in catalog order, whose lower-cased \<open>cropId\<close> contains the trimmed, lower-cased \<open>q\<close> (no
  entry before it does), and returns nothing exactly when no entry's \<open>cropId\<close> contains it.
\<close>

theorem findBest_first_match:
  "(findBest ps q = Some p \<longleftrightarrow>
      (\<exists>pre post. ps = pre @ p # post \<and>
         sublist (toLowerCase (trim q)) (toLowerCase (cropId p)) \<and>
         (\<forall>x\<in>set pre. \<not> sublist (toLowerCase (trim q)) (toLowerCase (cropId x))))) \<and>
   (findBest ps q = None \<longleftrightarrow>
      (\<forall>x\<in>set ps. \<not> sublist (toLowerCase (trim q)) (toLowerCase (cropId x))))"
proof -
  let ?P = "\<lambda>product. sublist (toLowerCase (trim q)) (toLowerCase (cropId product))"
  have eq: "findBest ps q = find ?P ps"
    by (simp add: findBest_def includesStr_iff)
  have none: "find ?P ps = None \<longleftrightarrow> (\<forall>x\<in>set ps. \<not> ?P x)"
    unfolding find_None_iff by blast
  show ?thesis
    unfolding eq using find_Some_split [of ?P ps p] none by blast
qed

theorem findBest_first_match_witness:
  "findBest catalog '' Wheat '' = Some wheat \<and> findBest catalog ''xyz'' = None"
proof -
  have a: "catalog = [corn] @ wheat # []" by (simp add: catalog_def)
  have b: "includesStr (toLowerCase (cropId wheat)) (toLowerCase (trim '' Wheat ''))"
    by code_simp
  have c: "\<forall>x\<in>set [corn].
      \<not> includesStr (toLowerCase (cropId x)) (toLowerCase (trim '' Wheat ''))"
    by code_simp
  have d: "\<forall>x\<in>set catalog.
      \<not> includesStr (toLowerCase (cropId x)) (toLowerCase (trim ''xyz''))"
    by code_simp
  from a b c have e:
    "\<exists>pre post. catalog = pre @ wheat # post \<and>
       sublist (toLowerCase (trim '' Wheat '')) (toLowerCase (cropId wheat)) \<and>
       (\<forall>x\<in>set pre. \<not> sublist (toLowerCase (trim '' Wheat '')) (toLowerCase (cropId x)))"
    unfolding includesStr_iff by blast
  from d have f:
    "\<forall>x\<in>set catalog. \<not> sublist (toLowerCase (trim ''xyz'')) (toLowerCase (cropId x))"
    unfolding includesStr_iff .
  from e findBest_first_match [of catalog "'' Wheat ''" wheat]
  have "findBest catalog '' Wheat '' = Some wheat" by blast
  moreover from f findBest_first_match [of catalog "''xyz''" wheat]
  have "findBest catalog ''xyz'' = None" by blast
  ultimately show ?thesis by (rule conjI)
qed

subsection \<open>C4: the result and the error message of a search\<close>

text \<open>
  C4, as stated, covers every search action. With a blank input the handler returns at
  its first line (line 137) and clears nothing: after a failed search for \<open>xyz\<close> and
  emptying the input, \<open>findBest\<close> would hit \<open>corn\<close> (the empty string occurs in every
  \<open>cropId\<close>), yet a search leaves the result absent and the old error message in place.
\<close>

theorem blank_search_keeps_error:
  "findBest (products (run [Loaded catalog, Change ''xyz'', KeyDown Enter, Change '''']))
     (input (run [Loaded catalog, Change ''xyz'', KeyDown Enter, Change ''''])) = Some corn \<and>
   result (handleSearch (run [Loaded catalog, Change ''xyz'', KeyDown Enter, Change ''''])) =
     None \<and>
   error (handleSearch (run [Loaded catalog, Change ''xyz'', KeyDown Enter, Change ''''])) =
     ''No matching product found.''"
  by code_simp

text \<open>
  C4, amended: for every search action on an input that is not blank, the result and the
  error message are both cleared when the search starts (lines 140 and 141), and the
  search changes nothing but the result, the error message and the loading flag. After
  it, at most one of the two is shown: on a \<open>findBest\<close> hit the result is the trimmed input
  with the product found and the error message is empty; on a miss the error message is
  exactly \<open>No matching product found.\<close> and the result is absent.
\<close>

theorem search_hit_or_miss:
  assumes "\<exists>c\<in>set (input s). \<not> isWhiteSpace c"
  shows "error (searchStart s) = [] \<and> result (searchStart s) = None \<and>
   (\<exists>r e. handleSearch s = (searchStart s)\<lparr>result := r, error := e, loading := False\<rparr>) \<and>
   (\<forall>m. findBest (products s) (input s) = Some m \<longrightarrow>
      result (handleSearch s) = Some \<lparr>crop = trim (input s), matchedProduct = m\<rparr> \<and>
      error (handleSearch s) = []) \<and>
   (findBest (products s) (input s) = None \<longrightarrow>
      error (handleSearch s) = ''No matching product found.'' \<and>
      result (handleSearch s) = None) \<and>
   \<not> (resultShown (handleSearch s) \<and> errorShown (handleSearch s))"
proof -
  from assms have nb: "trim (input s) \<noteq> []" by (simp add: trim_Nil_iff)
  show ?thesis
  proof (cases "findBest (products s) (input s)")
    case None
    have "handleSearch s =
        (searchStart s)\<lparr>result := None, error := ''No matching product found.'',
           loading := False\<rparr>"
      using nb None by (simp add: handleSearch_def searchTry_products searchStart_def)
    then show ?thesis using None
      by (auto simp add: searchStart_def resultShown_def errorShown_def)
  next
    case (Some m)
    have "handleSearch s =
        (searchStart s)\<lparr>result := Some \<lparr>crop = trim (input s), matchedProduct = m\<rparr>,
           error := [], loading := False\<rparr>"
      using nb Some by (simp add: handleSearch_def searchTry_products searchStart_def)
    then show ?thesis using Some
      by (auto simp add: searchStart_def resultShown_def errorShown_def)
  qed
qed

theorem search_hit_or_miss_witness:
  "result (handleSearch (run [Loaded catalog, Change ''corn''])) =
     Some \<lparr>crop = ''corn'', matchedProduct = corn\<rparr> \<and>
   error (handleSearch (run [Loaded catalog, Change ''corn''])) = [] \<and>
   error (handleSearch (run [Loaded catalog, Change ''xyz''])) =
     ''No matching product found.'' \<and>
   result (handleSearch (run [Loaded catalog, Change ''xyz''])) = None"
proof -
  have a: "\<exists>c\<in>set (input (run [Loaded catalog, Change ''corn''])). \<not> isWhiteSpace c"
    by code_simp
  have b: "\<exists>c\<in>set (input (run [Loaded catalog, Change ''xyz''])). \<not> isWhiteSpace c"
    by code_simp
  have c: "findBest (products (run [Loaded catalog, Change ''corn'']))
             (input (run [Loaded catalog, Change ''corn''])) = Some corn"
    by code_simp
  have d: "findBest (products (run [Loaded catalog, Change ''xyz'']))
             (input (run [Loaded catalog, Change ''xyz''])) = None"
    by code_simp
  have e: "trim (input (run [Loaded catalog, Change ''corn''])) = ''corn''"
    by code_simp
  show ?thesis
    using search_hit_or_miss [OF a] search_hit_or_miss [OF b] c d e by simp
qed

subsection \<open>C5: the arrow keys while the dropdown is open\<close>

text \<open>
  C5, as stated, clamps the highlighted index into the range from 0 to the last index
  after every Up or Down, also for Up at -1. With two suggestions shown and nothing
  highlighted, Up leaves the index at -1 (line 106 moves only an index above 0).
\<close>

theorem arrow_up_unhighlighted:
  "dropdownRendered (run [Loaded catalog, Change ''e'']) \<and>
   length (suggestions (run [Loaded catalog, Change ''e''])) = 2 \<and>
   selectedSuggestionIndex (run [Loaded catalog, Change ''e'']) = - 1 \<and>
   selectedSuggestionIndex (handleKeyDown ArrowUp (run [Loaded catalog, Change ''e''])) = - 1"
  by code_simp

text \<open>
  C5, amended: while the dropdown is open, Down moves the highlighted index by +1 unless
  it is already at the last index, where it stays; Up moves it by -1 only when it is
  above 0 and leaves it unchanged otherwise, so Up at 0 stays at 0 and Up at -1 stays
  at -1. There is no wraparound: from an index between -1 and the last index, Down gives
  the minimum of index + 1 and the last index, which lies between 0 and the last index
  when there is a suggestion, and Up gives -1 from -1 and the maximum of index - 1 and 0
  otherwise.
\<close>

theorem arrow_keys_move_highlight:
  assumes "showSuggestions s"
  shows "selectedSuggestionIndex (handleKeyDown ArrowDown s) =
       (if selectedSuggestionIndex s < int (length (suggestions s)) - 1
        then selectedSuggestionIndex s + 1 else selectedSuggestionIndex s) \<and>
     selectedSuggestionIndex (handleKeyDown ArrowUp s) =
       (if selectedSuggestionIndex s > 0
        then selectedSuggestionIndex s - 1 else selectedSuggestionIndex s) \<and>
     (- 1 \<le> selectedSuggestionIndex s \<and>
      selectedSuggestionIndex s \<le> int (length (suggestions s)) - 1 \<longrightarrow>
        selectedSuggestionIndex (handleKeyDown ArrowDown s) =
          min (selectedSuggestionIndex s + 1) (int (length (suggestions s)) - 1) \<and>
        selectedSuggestionIndex (handleKeyDown ArrowUp s) =
          (if selectedSuggestionIndex s = - 1 then - 1
           else max (selectedSuggestionIndex s - 1) 0) \<and>
        (suggestions s \<noteq> [] \<longrightarrow>
           0 \<le> selectedSuggestionIndex (handleKeyDown ArrowDown s) \<and>
           selectedSuggestionIndex (handleKeyDown ArrowDown s)
             \<le> int (length (suggestions s)) - 1))"
  using assms by (auto simp add: handleKeyDown_def Let_def)

theorem arrow_keys_move_highlight_witness:
  "selectedSuggestionIndex (run [Loaded catalog, Change ''e'', KeyDown ArrowDown]) = 0 \<and>
   selectedSuggestionIndex
     (run [Loaded catalog, Change ''e'', KeyDown ArrowDown, KeyDown ArrowDown]) = 1 \<and>
   selectedSuggestionIndex
     (handleKeyDown ArrowDown
        (run [Loaded catalog, Change ''e'', KeyDown ArrowDown, KeyDown ArrowDown])) = 1 \<and>
   selectedSuggestionIndex
     (handleKeyDown ArrowUp
        (run [Loaded catalog, Change ''e'', KeyDown ArrowDown, KeyDown ArrowDown])) = 0"
proof -
  let ?s = "run [Loaded catalog, Change ''e'', KeyDown ArrowDown, KeyDown ArrowDown]"
  have a: "showSuggestions ?s" by code_simp
  have b: "selectedSuggestionIndex ?s = 1" by code_simp
  have c: "int (length (suggestions ?s)) = 2" by code_simp
  have d: "selectedSuggestionIndex (run [Loaded catalog, Change ''e'', KeyDown ArrowDown]) = 0"
    by code_simp
  show ?thesis using arrow_keys_move_highlight [OF a] b c d by simp
qed

subsection \<open>C6: the highlighted index stays valid\<close>

text \<open>
  C6, as stated, has the highlighted index valid after every event. A row sets the index
  it was rendered with (line 208) and is keyed by its \<open>cropId\<close> (line 203). Over a
  catalog that repeats a \<open>cropId\<close>, typing \<open>e\<close> shows four rows and replacing the text by
  \<open>wh\<close> leaves one suggestion, while the row of index 2, whose key is repeated, can stay
  in the page; hovering it sets the index to 2 over a list of one.
\<close>

theorem stale_row_hover:
  "cropId brownRice = cropId redRice \<and>
   length (suggestions (run [Loaded [corn, wheat, brownRice, redRice], Change ''e''])) = 4 \<and>
   length (suggestions
     (run [Loaded [corn, wheat, brownRice, redRice], Change ''e'', Change ''wh''])) = 1 \<and>
   selectedSuggestionIndex
     (run [Loaded [corn, wheat, brownRice, redRice], Change ''e'', Change ''wh'',
           MouseEnter 2]) = 2 \<and>
   length (suggestions
     (run [Loaded [corn, wheat, brownRice, redRice], Change ''e'', Change ''wh'',
           MouseEnter 2])) = 1"
  by code_simp

text \<open>
  C6, amended: after mounting and any sequence of events in which every hover and click
  on a suggestion row comes from a row of the current render (as all do when the
  \<open>cropId\<close>s, the row keys, are distinct), the highlighted index is -1 or a valid index
  into the current suggestions (it lies between -1 and the last index); and every event
  that changes the suggestions list leaves the highlighted index at -1.
\<close>

theorem highlighted_index_invariant:
  assumes "fromCurrentRows (suggestionsEffect initial) es"
  shows "- 1 \<le> selectedSuggestionIndex (run es) \<and>
   selectedSuggestionIndex (run es) \<le> int (length (suggestions (run es))) - 1 \<and>
   (selectedSuggestionIndex (run es) = - 1 \<or>
      (0 \<le> selectedSuggestionIndex (run es) \<and>
       nat (selectedSuggestionIndex (run es)) < length (suggestions (run es)))) \<and>
   (suggestions (step e s) \<noteq> suggestions s \<longrightarrow> selectedSuggestionIndex (step e s) = - 1)"
  using run_index_bounds [OF assms] step_suggestions_changed [of e s] by auto

theorem highlighted_index_invariant_witness:
  "fromCurrentRows (suggestionsEffect initial) [Loaded catalog, Change ''e'', MouseEnter 1] \<and>
   selectedSuggestionIndex (run [Loaded catalog, Change ''e'', MouseEnter 1]) = 1 \<and>
   selectedSuggestionIndex (run [Loaded catalog, Change ''e'', MouseEnter 1])
     \<le> int (length (suggestions (run [Loaded catalog, Change ''e'', MouseEnter 1]))) - 1 \<and>
   selectedSuggestionIndex
     (step (Change ''corn'') (run [Loaded catalog, Change ''e'', MouseEnter 1])) = - 1"
proof -
  let ?es = "[Loaded catalog, Change ''e'', MouseEnter 1]"
  have h: "fromCurrentRows (suggestionsEffect initial) ?es" by code_simp
  have a: "selectedSuggestionIndex (run ?es) = 1" by code_simp
  have b: "suggestions (step (Change ''corn'') (run ?es)) \<noteq> suggestions (run ?es)"
    by code_simp
  show ?thesis
    using h a b highlighted_index_invariant [OF h, of "Change ''corn''" "run ?es"]
    by blast
qed

subsection \<open>C7: selecting a suggestion\<close>

text \<open>
  C7, as stated, makes Enter a selection whenever the highlighted index is valid. After
  a selection by the keyboard the dropdown is closed and the index is still 0, a valid
  index whose suggestion is \<open>babyCorn\<close>; Enter then runs the search (lines 84 to 88),
  which looks the input \<open>CORN\<close> up and sets the result to \<open>corn\<close>.
\<close>

theorem enter_with_closed_dropdown:
  "\<not> showSuggestions
       (run [Loaded [corn, babyCorn], Change ''baby'', KeyDown ArrowDown, KeyDown Enter]) \<and>
   selectedSuggestionIndex
       (run [Loaded [corn, babyCorn], Change ''baby'', KeyDown ArrowDown, KeyDown Enter]) = 0 \<and>
   suggestions
       (run [Loaded [corn, babyCorn], Change ''baby'', KeyDown ArrowDown, KeyDown Enter])
     = [babyCorn] \<and>
   result (step (KeyDown Enter)
       (run [Loaded [corn, babyCorn], Change ''baby'', KeyDown ArrowDown, KeyDown Enter]))
     = Some \<lparr>crop = ''CORN'', matchedProduct = corn\<rparr> \<and>
   corn \<noteq> babyCorn"
  by code_simp

text \<open>
  C7, amended: selecting a suggestion, by a click on its row or by Enter while the
  dropdown is open and the highlighted index is valid, sets the input to the product's
  \<open>cropId\<close>, closes the dropdown, and sets the result to that \<open>cropId\<close> with that product;
  the result does not depend on the catalog, so no lookup takes part. While the dropdown
  is closed, Enter runs the search action instead, whatever the highlighted index.
\<close>

theorem select_suggestion_sets_result:
  "input (selectSuggestion p s) = cropId p \<and>
   \<not> showSuggestions (selectSuggestion p s) \<and>
   \<not> dropdownRendered (selectSuggestion p s) \<and>
   result (selectSuggestion p s) = Some \<lparr>crop = cropId p, matchedProduct = p\<rparr> \<and>
   result (selectSuggestion p (s\<lparr>products := ps\<rparr>)) = result (selectSuggestion p s) \<and>
   step (ClickSuggestion p) s = selectSuggestion p s \<and>
   (showSuggestions s \<and> 0 \<le> selectedSuggestionIndex s \<and>
    selectedSuggestionIndex s < int (length (suggestions s)) \<longrightarrow>
      step (KeyDown Enter) s =
        selectSuggestion (suggestions s ! nat (selectedSuggestionIndex s)) s) \<and>
   (\<not> showSuggestions s \<longrightarrow> step (KeyDown Enter) s = handleSearch s)"
  by (simp add: selectSuggestion_def dropdownRendered_def step_def handleKeyDown_def)

theorem select_suggestion_sets_result_witness:
  "result (step (KeyDown Enter)
      (run [Loaded [corn, babyCorn], Change ''baby'', KeyDown ArrowDown])) =
     Some \<lparr>crop = ''CORN'', matchedProduct = babyCorn\<rparr> \<and>
   input (step (KeyDown Enter)
      (run [Loaded [corn, babyCorn], Change ''baby'', KeyDown ArrowDown])) = ''CORN'' \<and>
   result (step (ClickSuggestion babyCorn) (run [Loaded [corn, babyCorn], Change ''baby''])) =
     Some \<lparr>crop = ''CORN'', matchedProduct = babyCorn\<rparr> \<and>
   findBest [corn, babyCorn] ''CORN'' = Some corn"
proof -
  let ?s = "run [Loaded [corn, babyCorn], Change ''baby'', KeyDown ArrowDown]"
  let ?t = "run [Loaded [corn, babyCorn], Change ''baby'']"
  have a: "showSuggestions ?s \<and> 0 \<le> selectedSuggestionIndex ?s \<and>
      selectedSuggestionIndex ?s < int (length (suggestions ?s))" by code_simp
  have b: "suggestions ?s ! nat (selectedSuggestionIndex ?s) = babyCorn" by code_simp
  have e: "cropId babyCorn = ''CORN''" by code_simp
  have f: "findBest [corn, babyCorn] ''CORN'' = Some corn" by code_simp
  show ?thesis
    using a b e f select_suggestion_sets_result [of babyCorn ?s "[]"]
      select_suggestion_sets_result [of babyCorn ?t "[]"]
      select_suggestion_sets_result
        [of "suggestions ?s ! nat (selectedSuggestionIndex ?s)" ?s "[]"]
    by simp
qed

subsection \<open>C8: the only error message\<close>

text \<open>
  C8, as stated, has the \<open>catch\<close> branch of the search unreachable for every catalog. The
  fetched JSON is stored unchecked (line 31); on a catalog whose entry has no \<open>cropId\<close>
  the callback of \<open>find\<close> calls \<open>toLowerCase\<close> on \<open>undefined\<close>, which throws, and the
  \<open>catch\<close> branch sets the message \<open>Failed to fetch products.\<close>
\<close>

theorem failed_message_on_unchecked_catalog:
  "cropIdIncludes ''corn'' (JObject [(''title'', JString ''Sweet Corn'')]) = Inl TypeError \<and>
   errorJS (handleSearchJS
     \<lparr>inputJS = ''corn'', productsJS = noCropId, resultJS = None, errorJS = [],
      loadingJS = False\<rparr>) = ''Failed to fetch products.''"
  by code_simp

text \<open>
  C8, amended: for every catalog that is a \<open>Product[]\<close>, as the page declares it, and
  every input, the lookup of the search never throws (each product has a string
  \<open>cropId\<close>), so the \<open>catch\<close> branch is not taken: the search on the run-time values does
  what the search on the typed state does, and after mounting and any sequence of
  events the error message is empty or \<open>No matching product found.\<close>, never
  \<open>Failed to fetch products.\<close> On any fetched value the search leaves the message as it
  was, empty, or one of these two messages.
\<close>

theorem only_no_match_error:
  "jsFind (\<lambda>product. cropIdIncludes inp (toJS product)) ps = Inr (findBest ps inp) \<and>
   searchTry s s1 \<noteq> Inl err \<and>
   handleSearchJS (hooksOf s) = hooksOf (handleSearch s) \<and>
   (error (run es) = [] \<or> error (run es) = ''No matching product found.'') \<and>
   error (run es) \<noteq> ''Failed to fetch products.'' \<and>
   (errorJS (handleSearchJS h) = errorJS h \<or> errorJS (handleSearchJS h) = [] \<or>
    errorJS (handleSearchJS h) = ''No matching product found.'' \<or>
    errorJS (handleSearchJS h) = ''Failed to fetch products.'')"
proof -
  have "searchTry s s1 \<noteq> Inl err"
    by (simp add: searchTry_products split: option.split)
  moreover have "error (run es) \<noteq> ''Failed to fetch products.''"
    using run_error [of es] by auto
  ultimately show ?thesis
    using run_error [of es] jsFind_products [of inp ps] handleSearchJS_hooksOf [of s]
      handleSearchJS_error [of h]
    by blast
qed

theorem only_no_match_error_witness:
  "error (run [Loaded catalog, Change ''xyz'', ClickSearch]) = ''No matching product found.'' \<and>
   errorJS (handleSearchJS (hooksOf (run [Loaded catalog, Change ''xyz'']))) =
     ''No matching product found.''"
proof -
  let ?es = "[Loaded catalog, Change ''xyz'', ClickSearch]"
  let ?s = "run [Loaded catalog, Change ''xyz'']"
  have a: "error (run ?es) \<noteq> []" by code_simp
  have b: "error (handleSearch ?s) = ''No matching product found.''" by code_simp
  have c: "errorJS (hooksOf (handleSearch ?s)) = error (handleSearch ?s)"
    by (simp add: hooksOf_def)
  from only_no_match_error [of "''xyz''" catalog ?s ?s TypeError ?es "hooksOf ?s"]
  have d: "error (run ?es) = [] \<or> error (run ?es) = ''No matching product found.''"
    and e: "handleSearchJS (hooksOf ?s) = hooksOf (handleSearch ?s)"
    by blast+
  from a d have "error (run ?es) = ''No matching product found.''" by blast
  moreover from e c b
  have "errorJS (handleSearchJS (hooksOf ?s)) = ''No matching product found.''" by simp
  ultimately show ?thesis by (rule conjI)
qed

subsection \<open>C9: a selection keeps the error message\<close>

text \<open>
  C9: selecting a suggestion leaves the error message unchanged and sets the result, so
  from every state that shows an error message the selection leads to a state that
  shows both the error message and a result.
\<close>

theorem select_keeps_error:
  "error (selectSuggestion p s) = error s \<and>
   resultShown (selectSuggestion p s) \<and>
   errorShown (selectSuggestion p s) = errorShown s \<and>
   (errorShown s \<longrightarrow> errorShown (selectSuggestion p s) \<and> resultShown (selectSuggestion p s)) \<and>
   error (step (ClickSuggestion q) s) = error s \<and>
   resultShown (step (ClickSuggestion q) s)"
  by (simp add: selectSuggestion_def errorShown_def resultShown_def step_def)

theorem select_keeps_error_witness:
  "fromCurrentRow (ClickSuggestion corn)
      (run [Loaded catalog, Change ''xyz'', KeyDown Enter, Change ''corn'']) \<and>
   errorShown (step (ClickSuggestion corn)
      (run [Loaded catalog, Change ''xyz'', KeyDown Enter, Change ''corn''])) \<and>
   resultShown (step (ClickSuggestion corn)
      (run [Loaded catalog, Change ''xyz'', KeyDown Enter, Change ''corn''])) \<and>
   error (step (ClickSuggestion corn)
      (run [Loaded catalog, Change ''xyz'', KeyDown Enter, Change ''corn''])) =
     ''No matching product found.''"
proof -
  let ?s = "run [Loaded catalog, Change ''xyz'', KeyDown Enter, Change ''corn'']"
  have a: "errorShown ?s" by code_simp
  have b: "fromCurrentRow (ClickSuggestion corn) ?s" by code_simp
  have c: "error ?s = ''No matching product found.''" by code_simp
  have d: "step (ClickSuggestion corn) ?s = selectSuggestion corn ?s"
    by (simp add: step_def)
  show ?thesis
    using a b c d select_keeps_error [of corn ?s corn] by simp
qed

subsection \<open>C10: a search on a blank input\<close>

text \<open>
  C10: in every state whose input is empty or white space only, the search action
  returns the state unchanged: the result, the error message, the loading flag and all
  other fields stay as they were, whether the search comes from the handler itself, the
  button, or Enter with the dropdown closed or nothing highlighted.
\<close>

theorem blank_search_noop:
  assumes "\<forall>c\<in>set (input s). isWhiteSpace c"
  shows "handleSearch s = s \<and> step ClickSearch s = s \<and>
    (\<not> showSuggestions s \<or> selectedSuggestionIndex s < 0 \<longrightarrow> step (KeyDown Enter) s = s)"
proof -
  from assms have "trim (input s) = []" by (simp add: trim_Nil_iff)
  then show ?thesis by (simp add: handleSearch_def step_def handleKeyDown_def)
qed

theorem blank_search_noop_witness:
  "handleSearch (run [Loaded catalog, Change ''xyz'', KeyDown Enter, Change ''  '']) =
     run [Loaded catalog, Change ''xyz'', KeyDown Enter, Change ''  ''] \<and>
   error (handleSearch (run [Loaded catalog, Change ''xyz'', KeyDown Enter, Change ''  ''])) =
     ''No matching product found.''"
proof -
  let ?s = "run [Loaded catalog, Change ''xyz'', KeyDown Enter, Change ''  '']"
  have a: "\<forall>c\<in>set (input ?s). isWhiteSpace c" by code_simp
  have b: "error ?s = ''No matching product found.''" by code_simp
  show ?thesis using blank_search_noop [OF a] b by simp
qed

end
